theory Spec2Isabelle
  imports Complex_Main "HOL-Library.Sublist"
begin

section \<open>Data model\<close>

text \<open>
  The geometry engine (Shapely) is not part of the repository. Its operations that
  \<^verbatim>\<open>abPedestrianTool.py\<close> calls are taken as parameters: \<open>intersects\<close>,
  \<open>buffer\<close>, the coordinates \<open>.x\<close>, \<open>.y\<close> of a point geometry, and the
  constructor \<open>box\<close>.
  Coordinates and weights are Python floats in the source; they are real numbers here,
  and a decimal literal stands for its exact value.
\<close>

record 'g engine =
  intersects :: "'g \<Rightarrow> 'g \<Rightarrow> bool"
  buffer :: "'g \<Rightarrow> real \<Rightarrow> 'g"
  point_xy :: "'g \<Rightarrow> real \<times> real"
  mk_box :: "real \<Rightarrow> real \<Rightarrow> real \<Rightarrow> real \<Rightarrow> 'g"

text \<open>A feature read from a shapefile: its record id and its geometry.\<close>

record 'g feature =
  fid :: nat
  geometry :: "'g"

text \<open>The exceptions the modelled code can raise.\<close>

datatype py_error = ValueError | IndexError | RecursionError

type_synonym point = "real \<times> real"

section \<open>Region filter: \<^verbatim>\<open>defineBorders\<close>\<close>

fun defineBorders_loop ::
  "'g engine \<Rightarrow> 'g \<Rightarrow> 'g feature list \<Rightarrow> 'g feature list \<Rightarrow> 'g feature list" where
  "defineBorders_loop E bbox boundariesInBBox [] = boundariesInBBox"
| "defineBorders_loop E bbox boundariesInBBox (building # rest) =
     (if intersects E (geometry building) (buffer E bbox 50)
      then defineBorders_loop E bbox (boundariesInBBox @ [building]) rest
      else defineBorders_loop E bbox boundariesInBBox rest)"

definition defineBorders :: "'g engine \<Rightarrow> 'g feature list \<Rightarrow> 'g \<Rightarrow> 'g feature list" where
  "defineBorders E buildings bbox = defineBorders_loop E bbox [] buildings"

section \<open>Modal split: \<^verbatim>\<open>factoring\<close>\<close>

definition factoring ::
  "'a list \<Rightarrow> 'b list \<Rightarrow> 'c list \<Rightarrow> 'd list \<Rightarrow> real \<times> real \<times> real \<times> real" where
  "factoring bahnPeds busPeds radPeds autoPeds =
     (if length bahnPeds > 0 then
        if length busPeds > 0 then
          if length radPeds > 0 then
            if length autoPeds > 0 then (0.55, 0.25, 0.1, 0.1)
            else (0.6, 0.3, 0.1, 0)
          else
            if length autoPeds > 0 then (0.6, 0.3, 0, 0.1)
            else (0.7, 0.3, 0, 0)
        else
          if length radPeds > 0 then
            if length autoPeds > 0 then (0.8, 0, 0.1, 0.1)
            else (0.9, 0, 0.1, 0)
          else
            if length autoPeds > 0 then (0.9, 0, 0, 0.1)
            else (1, 0, 0, 0)
      else
        if length busPeds > 0 then
          if length radPeds > 0 then
            if length autoPeds > 0 then (0, 0.70, 0.15, 0.15)
            else (0, 0.75, 0.25, 0)
          else
            if length autoPeds > 0 then (0, 0.5, 0, 0.5)
            else (0, 1, 0, 0)
        else
          if length radPeds > 0 then
            if length autoPeds > 0 then (0, 0, 0.4, 0.6)
            else (0, 0, 1, 0)
          else (0, 0, 0, 1))"

text \<open>
  The decision table of the specification, section 4.3, row by row: the key is the
  availability of (rail, bus, bike, car), the value the four weights. The table has
  no row for the pattern with no mode available.
\<close>

definition modal_table :: "((bool \<times> bool \<times> bool \<times> bool) \<times> (real \<times> real \<times> real \<times> real)) list" where
  "modal_table =
    [((True, True, True, True),    (55/100, 25/100, 10/100, 10/100)),
     ((True, True, True, False),   (60/100, 30/100, 10/100, 0)),
     ((True, True, False, True),   (60/100, 30/100, 0, 10/100)),
     ((True, True, False, False),  (70/100, 30/100, 0, 0)),
     ((True, False, True, True),   (80/100, 0, 10/100, 10/100)),
     ((True, False, True, False),  (90/100, 0, 10/100, 0)),
     ((True, False, False, True),  (90/100, 0, 0, 10/100)),
     ((True, False, False, False), (100/100, 0, 0, 0)),
     ((False, True, True, True),   (0, 70/100, 15/100, 15/100)),
     ((False, True, True, False),  (0, 75/100, 25/100, 0)),
     ((False, True, False, True),  (0, 50/100, 0, 50/100)),
     ((False, True, False, False), (0, 100/100, 0, 0)),
     ((False, False, True, True),  (0, 0, 40/100, 60/100)),
     ((False, False, True, False), (0, 0, 100/100, 0)),
     ((False, False, False, True), (0, 0, 0, 100/100))]"

section \<open>Gateway locator: \<^verbatim>\<open>findStations\<close>\<close>

text \<open>A station is the pair of a feature and the name of its transport mode.\<close>

type_synonym 'g station = "'g feature \<times> string"

text \<open>
  Each of the four collection loops appends the features of one layer that intersect the
  box, tagged with the layer's mode.
\<close>

fun collectStations ::
  "'g engine \<Rightarrow> 'g \<Rightarrow> string \<Rightarrow> 'g feature list \<Rightarrow> 'g station list \<Rightarrow> 'g station list" where
  "collectStations E bbox tag [] stationsInBBox = stationsInBBox"
| "collectStations E bbox tag (feature # rest) stationsInBBox =
     (if intersects E (geometry feature) bbox
      then collectStations E bbox tag rest (stationsInBBox @ [(feature, tag)])
      else collectStations E bbox tag rest stationsInBBox)"

text \<open>
  The inner loop \<^verbatim>\<open>for station in stationsInBBox\<close> removes from the list it iterates
  over. Python's list iterator keeps an index \<open>i\<close>: it stops when \<open>i\<close> reaches the
  current length, otherwise yields element \<open>i\<close> and increments. \<^verbatim>\<open>list.remove\<close>
  deletes the first element equal to its argument.
\<close>

function removeStations ::
  "'g engine \<Rightarrow> 'g feature \<Rightarrow> nat \<Rightarrow> 'g station list \<Rightarrow> 'g station list" where
  "removeStations E gebaeude i stationsInBBox =
     (if i < length stationsInBBox then
        (if intersects E (geometry (fst (stationsInBBox ! i))) (geometry gebaeude)
         then removeStations E gebaeude (Suc i) (remove1 (stationsInBBox ! i) stationsInBBox)
         else removeStations E gebaeude (Suc i) stationsInBBox)
      else stationsInBBox)"
  by pat_completeness auto
termination
  by (relation "measure (\<lambda>(E, gebaeude, i, stationsInBBox). length stationsInBBox - i)")
     (auto simp: length_remove1)

declare removeStations.simps [simp del]

fun excludeBuildings :: "'g engine \<Rightarrow> 'g feature list \<Rightarrow> 'g station list \<Rightarrow> 'g station list" where
  "excludeBuildings E [] stationsInBBox = stationsInBBox"
| "excludeBuildings E (gebaeude # rest) stationsInBBox =
     excludeBuildings E rest (removeStations E gebaeude 0 stationsInBBox)"

text \<open>The body of \<^verbatim>\<open>findStations\<close> up to the test of the count.\<close>

definition stationsFound ::
  "'g engine \<Rightarrow> 'g feature list \<Rightarrow> 'g feature list \<Rightarrow> 'g feature list \<Rightarrow> 'g feature list
     \<Rightarrow> 'g \<Rightarrow> 'g feature list \<Rightarrow> 'g station list" where
  "stationsFound E bahnStations busStations radStations parkStations bbox boundariesInBBox =
     excludeBuildings E boundariesInBBox
       (collectStations E bbox ''Auto'' parkStations
         (collectStations E bbox ''Rad'' radStations
           (collectStations E bbox ''Bus'' busStations
             (collectStations E bbox ''Bahn'' bahnStations []))))"

text \<open>
  \<^verbatim>\<open>findStations\<close> calls itself on the buffered box while fewer than 5 stations are
  found. The first argument is the number of nested calls the interpreter still allows;
  when it is used up, Python raises \<^verbatim>\<open>RecursionError\<close>.
\<close>

fun findStations ::
  "nat \<Rightarrow> 'g engine \<Rightarrow> 'g feature list \<Rightarrow> 'g feature list \<Rightarrow> 'g feature list \<Rightarrow> 'g feature list
     \<Rightarrow> 'g \<Rightarrow> 'g feature list \<Rightarrow> py_error + 'g station list" where
  "findStations 0 E bahnStations busStations radStations parkStations bbox boundariesInBBox =
     Inl RecursionError"
| "findStations (Suc depth) E bahnStations busStations radStations parkStations bbox boundariesInBBox =
     (let stationsInBBox =
            stationsFound E bahnStations busStations radStations parkStations bbox boundariesInBBox
      in if length stationsInBBox < 5
         then findStations depth E bahnStations busStations radStations parkStations
                (buffer E bbox 100) boundariesInBBox
         else Inr stationsInBBox)"

section \<open>Random numbers\<close>

text \<open>
  The module \<^verbatim>\<open>random\<close> is a deterministic generator: its seed fixes the sequence of
  raw draws, here a function from the index of a draw to a natural number, and the state
  that the calls thread is the index of the next draw. \<^verbatim>\<open>random()\<close> is a 53-bit
  fraction in [0, 1); \<^verbatim>\<open>uniform(a, b)\<close> is \<^verbatim>\<open>a + (b - a) * random()\<close>;
  \<^verbatim>\<open>randint(a, b)\<close> raises \<^verbatim>\<open>ValueError\<close> on an empty range and otherwise
  returns an integer of \<open>a..b\<close>. Each call takes one raw draw.
\<close>

type_synonym draws = "nat \<Rightarrow> nat"

definition random_random :: "draws \<Rightarrow> nat \<Rightarrow> real \<times> nat" where
  "random_random seq i = (real (seq i mod 2 ^ 53) / 2 ^ 53, Suc i)"

definition random_uniform :: "draws \<Rightarrow> real \<Rightarrow> real \<Rightarrow> nat \<Rightarrow> real \<times> nat" where
  "random_uniform seq a b i = (case random_random seq i of (u, i') \<Rightarrow> (a + (b - a) * u, i'))"

definition random_randint :: "draws \<Rightarrow> int \<Rightarrow> int \<Rightarrow> nat \<Rightarrow> py_error + (int \<times> nat)" where
  "random_randint seq a b i =
     (if b < a then Inl ValueError
      else Inr (a + int (seq i mod nat (b - a + 1)), Suc i))"

text \<open>Python's \<^verbatim>\<open>xs[i]\<close>: a negative index counts from the end.\<close>

definition getitem :: "'a list \<Rightarrow> int \<Rightarrow> py_error + 'a" where
  "getitem xs i =
     (if 0 \<le> i \<and> i < int (length xs) then Inr (xs ! nat i)
      else if i < 0 \<and> - int (length xs) \<le> i then Inr (xs ! nat (int (length xs) + i))
      else Inl IndexError)"

section \<open>Crowd generator: \<^verbatim>\<open>randomPoint\<close> and the loops of \<^verbatim>\<open>defineStartVariables\<close>\<close>

definition distance :: "point \<Rightarrow> point \<Rightarrow> real" where
  "distance p a = sqrt ((fst p - fst a)\<^sup>2 + (snd p - snd a)\<^sup>2)"

text \<open>
  The loop of \<^verbatim>\<open>randomPoint\<close> over \<^verbatim>\<open>startPositions\<close>. When \<open>p\<close> is closer than 0.3
  to the current element, the source calls \<^verbatim>\<open>randomPoint\<close> again (\<open>again\<close> here),
  drops the point that call returns and goes on with the next element; otherwise it
  returns \<open>p\<close> at once. After the last element it returns \<open>p\<close>.
\<close>

fun randomPoint_loop ::
  "(nat \<Rightarrow> py_error + (point \<times> nat)) \<Rightarrow> point \<Rightarrow> point list \<Rightarrow> nat
     \<Rightarrow> py_error + (point \<times> nat)" where
  "randomPoint_loop again p [] i = Inr (p, i)"
| "randomPoint_loop again p (a # rest) i =
     (if distance p a < 0.3 then
        (case again i of
           Inl e \<Rightarrow> Inl e
         | Inr (q, i') \<Rightarrow> randomPoint_loop again p rest i')
      else Inr (p, i))"

text \<open>
  The first argument is the number of nested calls the interpreter still allows, as for
  \<open>findStations\<close>.
\<close>

fun randomPoint :: "draws \<Rightarrow> nat \<Rightarrow> point \<Rightarrow> point list \<Rightarrow> nat \<Rightarrow> py_error + (point \<times> nat)" where
  "randomPoint seq 0 point startPositions i = Inl RecursionError"
| "randomPoint seq (Suc depth) point startPositions i =
     (case random_uniform seq (fst point - 5) (fst point + 5) i of (x, i1) \<Rightarrow>
      case random_uniform seq (snd point - 5) (snd point + 5) i1 of (y, i2) \<Rightarrow>
        randomPoint_loop (randomPoint seq depth point startPositions) (x, y) startPositions i2)"

text \<open>
  The three lines that each branch of the mode selection repeats for its own list:
  draw an index, take the gateway, append a random point near it.
\<close>

definition startNear ::
  "draws \<Rightarrow> nat \<Rightarrow> 'g engine \<Rightarrow> 'g list \<Rightarrow> point list \<Rightarrow> nat \<Rightarrow> py_error + (point list \<times> nat)" where
  "startNear seq depth E peds startPositions i =
     (case random_randint seq 0 (int (length peds) - 1) i of
        Inl e \<Rightarrow> Inl e
      | Inr (pPos, i1) \<Rightarrow>
          (case getitem peds pPos of
             Inl e \<Rightarrow> Inl e
           | Inr gateway \<Rightarrow>
               (case randomPoint seq depth (point_xy E gateway) startPositions i1 of
                  Inl e \<Rightarrow> Inl e
                | Inr (p, i2) \<Rightarrow> Inr (startPositions @ [p], i2))))"

text \<open>One iteration of \<^verbatim>\<open>for i in range(peds)\<close>.\<close>

definition placePedestrian ::
  "draws \<Rightarrow> nat \<Rightarrow> 'g engine \<Rightarrow> real \<times> real \<times> real \<times> real
     \<Rightarrow> 'g list \<Rightarrow> 'g list \<Rightarrow> 'g list \<Rightarrow> 'g list \<Rightarrow> point list \<Rightarrow> nat
     \<Rightarrow> py_error + (point list \<times> nat)" where
  "placePedestrian seq depth E factors bahnPeds busPeds radPeds autoPeds startPositions i =
     (case factors of (bahnFactor, busFactor, radFactor, autoFactor) \<Rightarrow>
      case random_random seq i of (x, i1) \<Rightarrow>
        if x < bahnFactor then startNear seq depth E bahnPeds startPositions i1
        else if x < bahnFactor + busFactor then startNear seq depth E busPeds startPositions i1
        else if x < bahnFactor + busFactor + radFactor
          then startNear seq depth E radPeds startPositions i1
        else startNear seq depth E autoPeds startPositions i1)"

fun crowdLoop ::
  "draws \<Rightarrow> nat \<Rightarrow> nat \<Rightarrow> 'g engine \<Rightarrow> real \<times> real \<times> real \<times> real
     \<Rightarrow> 'g list \<Rightarrow> 'g list \<Rightarrow> 'g list \<Rightarrow> 'g list \<Rightarrow> point list \<Rightarrow> nat
     \<Rightarrow> py_error + (point list \<times> nat)" where
  "crowdLoop seq 0 depth E factors bahnPeds busPeds radPeds autoPeds startPositions i =
     Inr (startPositions, i)"
| "crowdLoop seq (Suc peds) depth E factors bahnPeds busPeds radPeds autoPeds startPositions i =
     (case placePedestrian seq depth E factors bahnPeds busPeds radPeds autoPeds startPositions i of
        Inl e \<Rightarrow> Inl e
      | Inr (startPositions', i') \<Rightarrow>
          crowdLoop seq peds depth E factors bahnPeds busPeds radPeds autoPeds startPositions' i')"

section \<open>Missions\<close>

text \<open>
  The text form of a point (\<^verbatim>\<open>.wkt\<close>) and of a float (\<^verbatim>\<open>str\<close>) are parameters.
  A row of the mission table is (startWKT, mentalModel, wktWayPoints).
\<close>

type_synonym row = "string \<times> string \<times> string"

definition pickStart ::
  "draws \<Rightarrow> (point \<Rightarrow> string) \<Rightarrow> point list \<Rightarrow> nat \<Rightarrow> py_error + (string \<times> nat)" where
  "pickStart seq wkt startPositions i =
     (case random_randint seq 0 (int (length startPositions) - 1) i of
        Inl e \<Rightarrow> Inl e
      | Inr (k, i') \<Rightarrow>
          (case getitem startPositions k of
             Inl e \<Rightarrow> Inl e
           | Inr p \<Rightarrow> Inr (wkt p, i')))"

definition generatedMission ::
  "draws \<Rightarrow> (point \<Rightarrow> string) \<Rightarrow> (real \<Rightarrow> string) \<Rightarrow> (real \<times> real) option \<Rightarrow> point list \<Rightarrow> nat
     \<Rightarrow> py_error + (string \<times> nat)" where
  "generatedMission seq wkt str target startPositions i =
     (case target of
        None \<Rightarrow>
          (case pickStart seq wkt startPositions i of Inl e \<Rightarrow> Inl e | Inr (w1, i1) \<Rightarrow>
           case pickStart seq wkt startPositions i1 of Inl e \<Rightarrow> Inl e | Inr (w2, i2) \<Rightarrow>
           case pickStart seq wkt startPositions i2 of Inl e \<Rightarrow> Inl e | Inr (w3, i3) \<Rightarrow>
           case pickStart seq wkt startPositions i3 of Inl e \<Rightarrow> Inl e | Inr (w4, i4) \<Rightarrow>
             Inr (''['' @ w1 @ '', '' @ w2 @ '', '' @ w3 @ '', '' @ w4 @ '']'', i4))
      | Some t \<Rightarrow> Inr (''[ POINT ('' @ str (fst t) @ '' '' @ str (snd t) @ '') ]'', i))"

fun missionRows ::
  "draws \<Rightarrow> (point \<Rightarrow> string) \<Rightarrow> (real \<Rightarrow> string) \<Rightarrow> (real \<times> real) option \<Rightarrow> point list
     \<Rightarrow> point list \<Rightarrow> nat \<Rightarrow> py_error + (row list \<times> nat)" where
  "missionRows seq wkt str target startPositions [] i = Inr ([], i)"
| "missionRows seq wkt str target startPositions (val # rest) i =
     (case generatedMission seq wkt str target startPositions i of
        Inl e \<Rightarrow> Inl e
      | Inr (mission, i') \<Rightarrow>
          (case missionRows seq wkt str target startPositions rest i' of
             Inl e \<Rightarrow> Inl e
           | Inr (rows, i'') \<Rightarrow>
               Inr ((wkt val, ''FollowWayPointsMentalModel'', mission) # rows, i'')))"

section \<open>The pipeline: \<^verbatim>\<open>defineStartVariables\<close>\<close>

text \<open>The gateways read back from the gateway file are sorted into the four lists.\<close>

fun sortGateways ::
  "('g \<times> string) list \<Rightarrow> 'g list \<Rightarrow> 'g list \<Rightarrow> 'g list \<Rightarrow> 'g list
     \<Rightarrow> 'g list \<times> 'g list \<times> 'g list \<times> 'g list" where
  "sortGateways [] bahnPeds busPeds radPeds autoPeds = (bahnPeds, busPeds, radPeds, autoPeds)"
| "sortGateways (feature # rest) bahnPeds busPeds radPeds autoPeds =
     (if snd feature = ''Bahn'' then sortGateways rest (bahnPeds @ [fst feature]) busPeds radPeds autoPeds
      else if snd feature = ''Bus'' then sortGateways rest bahnPeds (busPeds @ [fst feature]) radPeds autoPeds
      else if snd feature = ''Rad'' then sortGateways rest bahnPeds busPeds (radPeds @ [fst feature]) autoPeds
      else if snd feature = ''Auto'' then sortGateways rest bahnPeds busPeds radPeds (autoPeds @ [fst feature])
      else sortGateways rest bahnPeds busPeds radPeds autoPeds)"

text \<open>
  The four files the function writes. Each written feature carries its position in the
  list as id; the mission table starts with the header row.
\<close>

record 'g files =
  boundaries_cut :: "(nat \<times> 'g) list"
  gateways :: "(nat \<times> 'g \<times> string) list"
  pedestrians :: "(nat \<times> point) list"
  pedMission :: "row list"

definition defineStartVariables ::
  "draws \<Rightarrow> nat \<Rightarrow> 'g engine \<Rightarrow> (point \<Rightarrow> string) \<Rightarrow> (real \<Rightarrow> string)
     \<Rightarrow> 'g feature list \<Rightarrow> 'g feature list \<Rightarrow> 'g feature list \<Rightarrow> 'g feature list \<Rightarrow> 'g feature list
     \<Rightarrow> real \<Rightarrow> real \<Rightarrow> real \<Rightarrow> real \<Rightarrow> nat \<Rightarrow> (real \<times> real) option \<Rightarrow> nat
     \<Rightarrow> py_error + ('g files \<times> nat)" where
  "defineStartVariables seq depth E wkt str buildings bahnStations busStations radStations parkStations
     bbox_minx bbox_miny bbox_maxx bbox_maxy peds target i =
     (let bbox = mk_box E bbox_minx bbox_miny bbox_maxx bbox_maxy;
          boundariesInBBox = defineBorders E buildings bbox
      in case findStations depth E bahnStations busStations radStations parkStations bbox boundariesInBBox of
           Inl e \<Rightarrow> Inl e
         | Inr stationsInBBox \<Rightarrow>
             (let gatewaysList = map (\<lambda>station. (geometry (fst station), snd station)) stationsInBBox
              in case sortGateways gatewaysList [] [] [] [] of
                   (bahnPeds, busPeds, radPeds, autoPeds) \<Rightarrow>
                     (case crowdLoop seq peds depth E (factoring bahnPeds busPeds radPeds autoPeds)
                             bahnPeds busPeds radPeds autoPeds [] i of
                        Inl e \<Rightarrow> Inl e
                      | Inr (startPositions, i1) \<Rightarrow>
                          (case missionRows seq wkt str target startPositions startPositions i1 of
                             Inl e \<Rightarrow> Inl e
                           | Inr (rows, i2) \<Rightarrow>
                               Inr (\<lparr>boundaries_cut =
                                        zip [0..<length boundariesInBBox] (map geometry boundariesInBBox),
                                      gateways = zip [0..<length gatewaysList] gatewaysList,
                                      pedestrians = zip [0..<length startPositions] startPositions,
                                      pedMission =
                                        (''startWKT'', ''mentalModel'', ''wktWayPoints'') # rows\<rparr>,
                                    i2)))))"

text \<open>Two sequences of raw draws agree on the draws \<open>i\<close> to \<open>j - 1\<close>.\<close>

definition agree :: "draws \<Rightarrow> draws \<Rightarrow> nat \<Rightarrow> nat \<Rightarrow> bool" where
  "agree seq seq' i j \<longleftrightarrow> (\<forall>m. i \<le> m \<and> m < j \<longrightarrow> seq' m = seq m)"

section \<open>A concrete geometry for worked examples\<close>

text \<open>
  Points, axis-aligned boxes and their buffers: a shape is the set of points within
  distance \<open>radius\<close> of the rectangle \<open>[minx, maxx] \<times> [miny, maxy]\<close>. Two such
  shapes meet exactly when the gap between the rectangles is at most the sum of the
  radii.
\<close>

record rshape =
  minx :: real
  miny :: real
  maxx :: real
  maxy :: real
  radius :: real

definition Point :: "real \<Rightarrow> real \<Rightarrow> rshape" where
  "Point x y = \<lparr>minx = x, miny = y, maxx = x, maxy = y, radius = 0\<rparr>"

definition box :: "real \<Rightarrow> real \<Rightarrow> real \<Rightarrow> real \<Rightarrow> rshape" where
  "box x0 y0 x1 y1 = \<lparr>minx = x0, miny = y0, maxx = x1, maxy = y1, radius = 0\<rparr>"

definition gap :: "real \<Rightarrow> real \<Rightarrow> real \<Rightarrow> real \<Rightarrow> real" where
  "gap lo1 hi1 lo2 hi2 = max 0 (max (lo1 - hi2) (lo2 - hi1))"

definition rshape_intersects :: "rshape \<Rightarrow> rshape \<Rightarrow> bool" where
  "rshape_intersects a b =
     (0 \<le> radius a + radius b \<and>
      (gap (minx a) (maxx a) (minx b) (maxx b))\<^sup>2 + (gap (miny a) (maxy a) (miny b) (maxy b))\<^sup>2
        \<le> (radius a + radius b)\<^sup>2)"

definition rshape_buffer :: "rshape \<Rightarrow> real \<Rightarrow> rshape" where
  "rshape_buffer a d = a\<lparr>radius := radius a + d\<rparr>"

text \<open>A finite list of raw draws, continued with zeros.\<close>

definition draws_of :: "nat list \<Rightarrow> draws" where
  "draws_of xs i = (if i < length xs then xs ! i else 0)"

definition rshape_engine :: "rshape engine" where
  "rshape_engine =
     \<lparr>intersects = rshape_intersects, buffer = rshape_buffer,
      point_xy = (\<lambda>a. (minx a, miny a)), mk_box = box\<rparr>"

section \<open>Properties of the region filter\<close>

lemma defineBorders_loop_filter:
  "defineBorders_loop E bbox acc bs =
     acc @ filter (\<lambda>b. intersects E (geometry b) (buffer E bbox 50)) bs"
  by (induction bs arbitrary: acc) simp_all

lemma defineBorders_filter:
  "defineBorders E buildings bbox =
     filter (\<lambda>b. intersects E (geometry b) (buffer E bbox 50)) buildings"
  by (simp add: defineBorders_def defineBorders_loop_filter)

lemma rshape_buffer_grows:
  assumes "rshape_intersects g b" and "0 \<le> d"
  shows "rshape_intersects g (rshape_buffer b d)"
proof -
  let ?R = "radius g + radius b"
  from assms(1) have R: "0 \<le> ?R" by (simp add: rshape_intersects_def)
  with assms(2) have "?R\<^sup>2 \<le> (?R + d)\<^sup>2" by (intro power_mono) simp_all
  then have mono: "?R\<^sup>2 \<le> (radius g + (radius b + d))\<^sup>2" by (simp add: add.assoc)
  from assms(1) have
    "(gap (minx g) (maxx g) (minx b) (maxx b))\<^sup>2 + (gap (miny g) (maxy g) (miny b) (maxy b))\<^sup>2
       \<le> ?R\<^sup>2"
    by (simp add: rshape_intersects_def)
  with mono have
    "(gap (minx g) (maxx g) (minx b) (maxx b))\<^sup>2 + (gap (miny g) (maxy g) (miny b) (maxy b))\<^sup>2
       \<le> (radius g + (radius b + d))\<^sup>2"
    by linarith
  with R assms(2) show ?thesis
    by (simp add: rshape_intersects_def rshape_buffer_def)
qed

text \<open>
  C8. The output of the region filter is a subsequence of its input, it holds exactly the
  polygons whose geometry intersects the box buffered by 50 units, polygons that do not
  intersect the buffered box are left out, and, for a geometry engine whose 50-unit
  buffer of the box covers the box, every polygon intersecting the box itself is kept.
\<close>

theorem defineBorders_region_filter:
  "subseq (defineBorders E buildings bbox) buildings
   \<and> defineBorders E buildings bbox =
       filter (\<lambda>b. intersects E (geometry b) (buffer E bbox 50)) buildings
   \<and> (\<forall>b. \<not> intersects E (geometry b) (buffer E bbox 50)
          \<longrightarrow> b \<notin> set (defineBorders E buildings bbox))
   \<and> ((\<forall>g. intersects E g bbox \<longrightarrow> intersects E g (buffer E bbox 50))
        \<longrightarrow> (\<forall>b \<in> set buildings. intersects E (geometry b) bbox
               \<longrightarrow> b \<in> set (defineBorders E buildings bbox)))"
  by (simp add: defineBorders_filter)

theorem defineBorders_region_filter_witness:
  "defineBorders rshape_engine
        [\<lparr>fid = 0, geometry = box 10 10 20 20\<rparr>,
         \<lparr>fid = 1, geometry = box 500 500 510 510\<rparr>,
         \<lparr>fid = 2, geometry = box 120 40 130 50\<rparr>] (box 0 0 100 100)
      = [\<lparr>fid = 0, geometry = box 10 10 20 20\<rparr>, \<lparr>fid = 2, geometry = box 120 40 130 50\<rparr>]
   \<and> subseq [\<lparr>fid = 0, geometry = box 10 10 20 20\<rparr>, \<lparr>fid = 2, geometry = box 120 40 130 50\<rparr>]
        [\<lparr>fid = 0, geometry = box 10 10 20 20\<rparr>,
         \<lparr>fid = 1, geometry = box 500 500 510 510\<rparr>,
         \<lparr>fid = 2, geometry = box 120 40 130 50\<rparr>]
   \<and> \<lparr>fid = 0, geometry = box 10 10 20 20\<rparr> \<in> set (defineBorders rshape_engine
        [\<lparr>fid = 0, geometry = box 10 10 20 20\<rparr>,
         \<lparr>fid = 1, geometry = box 500 500 510 510\<rparr>,
         \<lparr>fid = 2, geometry = box 120 40 130 50\<rparr>] (box 0 0 100 100))"
proof -
  let ?bs = "[\<lparr>fid = 0, geometry = box 10 10 20 20\<rparr>,
              \<lparr>fid = 1, geometry = box 500 500 510 510\<rparr>,
              \<lparr>fid = 2, geometry = box 120 40 130 50\<rparr>]"
  have grow: "\<forall>g. intersects rshape_engine g (box 0 0 100 100)
        \<longrightarrow> intersects rshape_engine g (buffer rshape_engine (box 0 0 100 100) 50)"
    by (simp add: rshape_engine_def rshape_buffer_grows)
  have val: "filter (\<lambda>b. intersects rshape_engine (geometry b)
                 (buffer rshape_engine (box 0 0 100 100) 50)) ?bs
      = [\<lparr>fid = 0, geometry = box 10 10 20 20\<rparr>, \<lparr>fid = 2, geometry = box 120 40 130 50\<rparr>]"
    by (simp add: rshape_engine_def rshape_intersects_def rshape_buffer_def box_def gap_def)
  have inter: "intersects rshape_engine (geometry \<lparr>fid = 0, geometry = box 10 10 20 20\<rparr>) (box 0 0 100 100)"
    by (simp add: rshape_engine_def rshape_intersects_def box_def gap_def)
  from defineBorders_region_filter [of rshape_engine ?bs "box 0 0 100 100"] grow val inter
  show ?thesis by simp
qed

section \<open>Properties of the modal split\<close>

lemma factoring_cases:
  "factoring bahnPeds busPeds radPeds autoPeds =
     (if bahnPeds \<noteq> [] then
        if busPeds \<noteq> [] then
          if radPeds \<noteq> [] then
            if autoPeds \<noteq> [] then (55/100, 25/100, 10/100, 10/100) else (60/100, 30/100, 10/100, 0)
          else if autoPeds \<noteq> [] then (60/100, 30/100, 0, 10/100) else (70/100, 30/100, 0, 0)
        else
          if radPeds \<noteq> [] then
            if autoPeds \<noteq> [] then (80/100, 0, 10/100, 10/100) else (90/100, 0, 10/100, 0)
          else if autoPeds \<noteq> [] then (90/100, 0, 0, 10/100) else (1, 0, 0, 0)
      else
        if busPeds \<noteq> [] then
          if radPeds \<noteq> [] then
            if autoPeds \<noteq> [] then (0, 70/100, 15/100, 15/100) else (0, 75/100, 25/100, 0)
          else if autoPeds \<noteq> [] then (0, 50/100, 0, 50/100) else (0, 1, 0, 0)
        else
          if radPeds \<noteq> [] then
            if autoPeds \<noteq> [] then (0, 0, 40/100, 60/100) else (0, 0, 1, 0)
          else (0, 0, 0, 1))"
  by (simp add: factoring_def)

text \<open>
  C3, as the code has it. For every input the four weights sum to 1. When at least one of
  the four gateway lists is non-empty, every mode whose list is empty gets weight exactly
  0. (On four empty lists the car weight is 1, see the counterexample below.)
\<close>

theorem factoring_weights:
  assumes "factoring bahnPeds busPeds radPeds autoPeds = (bahnFactor, busFactor, radFactor, autoFactor)"
  shows "bahnFactor + busFactor + radFactor + autoFactor = 1
     \<and> (length bahnPeds > 0 \<or> length busPeds > 0 \<or> length radPeds > 0 \<or> length autoPeds > 0
          \<longrightarrow> (length bahnPeds = 0 \<longrightarrow> bahnFactor = 0)
            \<and> (length busPeds = 0 \<longrightarrow> busFactor = 0)
            \<and> (length radPeds = 0 \<longrightarrow> radFactor = 0)
            \<and> (length autoPeds = 0 \<longrightarrow> autoFactor = 0))"
  using assms by (auto simp: factoring_cases split: if_splits)

theorem factoring_weights_witness:
  "factoring [(10::real, 10::real)] ([]::point list) [(3::real, 4::real)] ([]::point list)
      = (9/10, 0, 1/10, 0)
   \<and> (9/10 + 0 + 1/10 + 0 = (1::real))
   \<and> length [(10::real, 10::real)] > 0
   \<and> length ([]::point list) = 0"
proof -
  have v: "factoring [(10::real, 10::real)] ([]::point list) [(3::real, 4::real)] ([]::point list)
      = (9/10, 0, 1/10, 0)"
    by (simp add: factoring_cases)
  from factoring_weights [OF v] v show ?thesis by simp
qed

text \<open>
  C3 as stated fails on four empty lists: the car list is empty and the car weight is 1.
\<close>

theorem factoring_zero_count_counterexample:
  "length ([]::point list) = 0
   \<and> snd (snd (snd (factoring ([]::point list) ([]::point list) ([]::point list) ([]::point list)))) \<noteq> 0"
  by (simp add: factoring_cases)

text \<open>
  C4. The result of \<open>factoring\<close> depends only on which of the four lists are non-empty:
  whenever at least one is, it is the row of the table of section 4.3 for that
  availability pattern (the table has 15 rows with distinct keys); with all four modes
  available it is (0.55, 0.25, 0.10, 0.10).
\<close>

theorem factoring_decision_table:
  assumes "length bahnPeds > 0 \<or> length busPeds > 0 \<or> length radPeds > 0 \<or> length autoPeds > 0"
  shows "map_of modal_table (length bahnPeds > 0, length busPeds > 0, length radPeds > 0, length autoPeds > 0)
           = Some (factoring bahnPeds busPeds radPeds autoPeds)
     \<and> length modal_table = 15 \<and> distinct (map fst modal_table)
     \<and> (length bahnPeds > 0 \<and> length busPeds > 0 \<and> length radPeds > 0 \<and> length autoPeds > 0
          \<longrightarrow> factoring bahnPeds busPeds radPeds autoPeds = (0.55, 0.25, 0.10, 0.10))"
proof -
  have "map_of modal_table (bahnPeds \<noteq> [], busPeds \<noteq> [], radPeds \<noteq> [], autoPeds \<noteq> [])
           = Some (factoring bahnPeds busPeds radPeds autoPeds)"
    using assms by (simp add: factoring_cases modal_table_def)
  moreover have "length modal_table = 15" "distinct (map fst modal_table)"
    by (simp_all add: modal_table_def)
  moreover have "bahnPeds \<noteq> [] \<and> busPeds \<noteq> [] \<and> radPeds \<noteq> [] \<and> autoPeds \<noteq> []
          \<longrightarrow> factoring bahnPeds busPeds radPeds autoPeds = (0.55, 0.25, 0.10, 0.10)"
    by (simp add: factoring_cases)
  ultimately show ?thesis by simp
qed

theorem factoring_decision_table_witness:
  "length [(1::real, 2::real)] > 0
   \<and> map_of modal_table (True, True, True, True)
       = Some (factoring [(1::real, 2::real)] [(3::real, 4::real)] [(5::real, 6::real)] [(7::real, 8::real)])
   \<and> factoring [(1::real, 2::real)] [(3::real, 4::real)] [(5::real, 6::real)] [(7::real, 8::real)]
       = (0.55, 0.25, 0.10, 0.10)"
  using factoring_decision_table
    [of "[(1::real, 2::real)]" "[(3::real, 4::real)]" "[(5::real, 6::real)]" "[(7::real, 8::real)]"]
  by simp

text \<open>
  C10. \<open>factoring\<close> has no failing operation: for every input it returns four non-negative
  weights that sum to 1. On four empty lists it returns (0, 0, 0, 1): the whole weight
  goes to the car mode although there is no car gateway.
\<close>

theorem factoring_total_all_empty:
  "(case factoring bahnPeds busPeds radPeds autoPeds of
      (bahnFactor, busFactor, radFactor, autoFactor) \<Rightarrow>
        0 \<le> bahnFactor \<and> 0 \<le> busFactor \<and> 0 \<le> radFactor \<and> 0 \<le> autoFactor
        \<and> bahnFactor + busFactor + radFactor + autoFactor = 1)
   \<and> factoring [] [] [] [] = (0, 0, 0, 1)"
  by (simp add: factoring_cases)

section \<open>Properties of the gateway locator\<close>

lemma findStations_returns:
  "findStations depth E bahnStations busStations radStations parkStations bbox boundariesInBBox
     = Inr stations \<Longrightarrow>
   5 \<le> length stations \<and>
   (\<exists>k < depth. stations =
      stationsFound E bahnStations busStations radStations parkStations
        (((\<lambda>b. buffer E b 100) ^^ k) bbox) boundariesInBBox)"
proof (induction depth arbitrary: bbox)
  case 0
  then show ?case by simp
next
  case (Suc depth)
  let ?found = "stationsFound E bahnStations busStations radStations parkStations bbox boundariesInBBox"
  show ?case
  proof (cases "length ?found < 5")
    case True
    with Suc.prems have
      "findStations depth E bahnStations busStations radStations parkStations
         (buffer E bbox 100) boundariesInBBox = Inr stations"
      by simp
    from Suc.IH [OF this] obtain k where k: "k < depth"
      "stations = stationsFound E bahnStations busStations radStations parkStations
         (((\<lambda>b. buffer E b 100) ^^ k) (buffer E bbox 100)) boundariesInBBox"
      and len: "5 \<le> length stations"
      by blast
    from k(2) have "stations = stationsFound E bahnStations busStations radStations parkStations
         (((\<lambda>b. buffer E b 100) ^^ Suc k) bbox) boundariesInBBox"
      using funpow_swap1 [of "\<lambda>b. buffer E b 100" k bbox] by simp
    with k(1) len show ?thesis by (metis Suc_less_eq)
  next
    case False
    with Suc.prems have "stations = ?found" by simp
    with False have "5 \<le> length stations"
      and "stations = stationsFound E bahnStations busStations radStations parkStations
         (((\<lambda>b. buffer E b 100) ^^ 0) bbox) boundariesInBBox"
      by simp_all
    then show ?thesis by blast
  qed
qed

text \<open>
  C6. If fewer than 5 stations are found for the current box, \<open>findStations\<close> is its own
  result on the box buffered by 100 units, with the same obstacle list. If at least 5
  are found, they are returned at once, with no expansion. Whenever \<open>findStations\<close>
  returns a list, the list has at least 5 stations, and it is what was found for the
  box buffered by 100 units some number of times.
\<close>

theorem findStations_threshold:
  "(length (stationsFound E bahnStations busStations radStations parkStations bbox boundariesInBBox) < 5
      \<longrightarrow> findStations (Suc depth) E bahnStations busStations radStations parkStations bbox boundariesInBBox
          = findStations depth E bahnStations busStations radStations parkStations
              (buffer E bbox 100) boundariesInBBox)
   \<and> (5 \<le> length (stationsFound E bahnStations busStations radStations parkStations bbox boundariesInBBox)
      \<longrightarrow> findStations (Suc depth) E bahnStations busStations radStations parkStations bbox boundariesInBBox
          = Inr (stationsFound E bahnStations busStations radStations parkStations bbox boundariesInBBox))
   \<and> (\<forall>stations.
        findStations depth E bahnStations busStations radStations parkStations bbox boundariesInBBox
          = Inr stations
        \<longrightarrow> 5 \<le> length stations
          \<and> (\<exists>k < depth. stations =
                stationsFound E bahnStations busStations radStations parkStations
                  (((\<lambda>b. buffer E b 100) ^^ k) bbox) boundariesInBBox))"
  using findStations_returns
    [of depth E bahnStations busStations radStations parkStations bbox boundariesInBBox]
  by simp

text \<open>
  Three rail stations lie in the box (0, 0, 100, 100), two bus stations lie outside it
  within 100 units: the first call finds 3, the call on the buffered box finds 5.
\<close>

theorem findStations_threshold_witness:
  "length (stationsFound rshape_engine
      [\<lparr>fid = 0, geometry = Point 10 10\<rparr>, \<lparr>fid = 1, geometry = Point 20 20\<rparr>,
       \<lparr>fid = 2, geometry = Point 30 30\<rparr>]
      [\<lparr>fid = 0, geometry = Point 150 50\<rparr>, \<lparr>fid = 1, geometry = Point 50 160\<rparr>] [] []
      (box 0 0 100 100) []) = 3
   \<and> findStations 2 rshape_engine
      [\<lparr>fid = 0, geometry = Point 10 10\<rparr>, \<lparr>fid = 1, geometry = Point 20 20\<rparr>,
       \<lparr>fid = 2, geometry = Point 30 30\<rparr>]
      [\<lparr>fid = 0, geometry = Point 150 50\<rparr>, \<lparr>fid = 1, geometry = Point 50 160\<rparr>] [] []
      (box 0 0 100 100) []
     = Inr [(\<lparr>fid = 0, geometry = Point 10 10\<rparr>, ''Bahn''), (\<lparr>fid = 1, geometry = Point 20 20\<rparr>, ''Bahn''),
            (\<lparr>fid = 2, geometry = Point 30 30\<rparr>, ''Bahn''),
            (\<lparr>fid = 0, geometry = Point 150 50\<rparr>, ''Bus''), (\<lparr>fid = 1, geometry = Point 50 160\<rparr>, ''Bus'')]
   \<and> findStations 1 rshape_engine
      [\<lparr>fid = 0, geometry = Point 10 10\<rparr>, \<lparr>fid = 1, geometry = Point 20 20\<rparr>,
       \<lparr>fid = 2, geometry = Point 30 30\<rparr>]
      [\<lparr>fid = 0, geometry = Point 150 50\<rparr>, \<lparr>fid = 1, geometry = Point 50 160\<rparr>] [] []
      (buffer rshape_engine (box 0 0 100 100) 100) []
     = findStations 2 rshape_engine
      [\<lparr>fid = 0, geometry = Point 10 10\<rparr>, \<lparr>fid = 1, geometry = Point 20 20\<rparr>,
       \<lparr>fid = 2, geometry = Point 30 30\<rparr>]
      [\<lparr>fid = 0, geometry = Point 150 50\<rparr>, \<lparr>fid = 1, geometry = Point 50 160\<rparr>] [] []
      (box 0 0 100 100) []"
proof -
  let ?bahn = "[\<lparr>fid = 0, geometry = Point 10 10\<rparr>, \<lparr>fid = 1, geometry = Point 20 20\<rparr>,
       \<lparr>fid = 2, geometry = Point 30 30\<rparr>]"
  let ?bus = "[\<lparr>fid = 0, geometry = Point 150 50\<rparr>, \<lparr>fid = 1, geometry = Point 50 160\<rparr>]"
  have first: "stationsFound rshape_engine ?bahn ?bus [] [] (box 0 0 100 100) []
      = [(\<lparr>fid = 0, geometry = Point 10 10\<rparr>, ''Bahn''), (\<lparr>fid = 1, geometry = Point 20 20\<rparr>, ''Bahn''),
         (\<lparr>fid = 2, geometry = Point 30 30\<rparr>, ''Bahn'')]"
    by (simp add: stationsFound_def rshape_engine_def rshape_intersects_def Point_def box_def gap_def)
  have second: "stationsFound rshape_engine ?bahn ?bus [] []
        (buffer rshape_engine (box 0 0 100 100) 100) []
      = [(\<lparr>fid = 0, geometry = Point 10 10\<rparr>, ''Bahn''), (\<lparr>fid = 1, geometry = Point 20 20\<rparr>, ''Bahn''),
         (\<lparr>fid = 2, geometry = Point 30 30\<rparr>, ''Bahn''),
         (\<lparr>fid = 0, geometry = Point 150 50\<rparr>, ''Bus''), (\<lparr>fid = 1, geometry = Point 50 160\<rparr>, ''Bus'')]"
    by (simp add: stationsFound_def rshape_engine_def rshape_intersects_def rshape_buffer_def
        Point_def box_def gap_def)
  have less: "length (stationsFound rshape_engine ?bahn ?bus [] [] (box 0 0 100 100) []) < 5"
    unfolding first by simp
  have enough: "5 \<le> length (stationsFound rshape_engine ?bahn ?bus [] []
        (buffer rshape_engine (box 0 0 100 100) 100) [])"
    unfolding second by simp
  from findStations_threshold [of rshape_engine ?bahn ?bus "[]" "[]" "box 0 0 100 100" "[]" 1] less
  have step: "findStations 2 rshape_engine ?bahn ?bus [] [] (box 0 0 100 100) []
      = findStations 1 rshape_engine ?bahn ?bus [] [] (buffer rshape_engine (box 0 0 100 100) 100) []"
    by (simp add: numeral_2_eq_2)
  from findStations_threshold
    [of rshape_engine ?bahn ?bus "[]" "[]" "buffer rshape_engine (box 0 0 100 100) 100" "[]" 0] enough
  have stop: "findStations 1 rshape_engine ?bahn ?bus [] [] (buffer rshape_engine (box 0 0 100 100) 100) []
      = Inr (stationsFound rshape_engine ?bahn ?bus [] []
               (buffer rshape_engine (box 0 0 100 100) 100) [])"
    by simp
  from step stop first second show ?thesis by simp
qed

text \<open>
  C2 fails on the code. Six rail stations lie in the box; the first two lie in the one
  building. Removing the first shifts the second to the index the iterator has already
  passed, so the second is never tested: it is returned although it intersects the
  building.
\<close>

theorem findStations_returns_station_in_building:
  "findStations 1 rshape_engine
     [\<lparr>fid = 0, geometry = Point 11 11\<rparr>, \<lparr>fid = 1, geometry = Point 12 12\<rparr>,
      \<lparr>fid = 2, geometry = Point 50 50\<rparr>, \<lparr>fid = 3, geometry = Point 60 60\<rparr>,
      \<lparr>fid = 4, geometry = Point 70 70\<rparr>, \<lparr>fid = 5, geometry = Point 80 80\<rparr>] [] [] []
     (box 0 0 100 100) [\<lparr>fid = 0, geometry = box 10 10 20 20\<rparr>]
   = Inr [(\<lparr>fid = 1, geometry = Point 12 12\<rparr>, ''Bahn''), (\<lparr>fid = 2, geometry = Point 50 50\<rparr>, ''Bahn''),
          (\<lparr>fid = 3, geometry = Point 60 60\<rparr>, ''Bahn''), (\<lparr>fid = 4, geometry = Point 70 70\<rparr>, ''Bahn''),
          (\<lparr>fid = 5, geometry = Point 80 80\<rparr>, ''Bahn'')]
   \<and> intersects rshape_engine (Point 12 12) (box 10 10 20 20)"
  by (simp add: stationsFound_def rshape_engine_def rshape_intersects_def Point_def box_def gap_def
      removeStations.simps)

section \<open>Properties of the crowd generator\<close>

lemma distance_less_iff:
  "0 < c \<Longrightarrow> distance p a < c \<longleftrightarrow> (fst p - fst a)\<^sup>2 + (snd p - snd a)\<^sup>2 < c\<^sup>2"
  unfolding distance_def
  by (metis real_sqrt_less_iff real_sqrt_abs abs_of_pos)

lemma randomPoint_loop_Cons:
  "randomPoint_loop again p (a # rest) i =
     (if (fst p - fst a)\<^sup>2 + (snd p - snd a)\<^sup>2 < 9 / 100 then
        (case again i of
           Inl e \<Rightarrow> Inl e
         | Inr (q, i') \<Rightarrow> randomPoint_loop again p rest i')
      else Inr (p, i))"
proof -
  have "distance p a < 0.3 \<longleftrightarrow> (fst p - fst a)\<^sup>2 + (snd p - snd a)\<^sup>2 < 9 / 100"
    using distance_less_iff [of "0.3" p a] by (simp add: power2_eq_square)
  then show ?thesis by simp
qed

lemma draws_of_simps:
  "draws_of (x # xs) 0 = x"
  "draws_of (x # xs) (Suc i) = draws_of xs i"
  "draws_of [] i = 0"
  by (simp_all add: draws_of_def)

lemma startNear_empty: "startNear seq depth E [] startPositions i = Inl ValueError"
  by (simp add: startNear_def random_randint_def)

lemma crowdLoop_add:
  "crowdLoop seq (k + n) depth E factors bahnPeds busPeds radPeds autoPeds startPositions i =
     (case crowdLoop seq k depth E factors bahnPeds busPeds radPeds autoPeds startPositions i of
        Inl e \<Rightarrow> Inl e
      | Inr (startPositions', i') \<Rightarrow>
          crowdLoop seq n depth E factors bahnPeds busPeds radPeds autoPeds startPositions' i')"
  by (induction k arbitrary: startPositions i) (auto split: sum.splits)

text \<open>
  C5. Suppose the crowd loop has placed \<open>k\<close> pedestrians and the next draw \<open>x\<close> selects
  a mode whose gateway list is empty. Then that iteration, and with it the whole loop,
  ends with the \<^verbatim>\<open>ValueError\<close> that \<^verbatim>\<open>random.randint(0, -1)\<close> raises for its
  empty range; no list is indexed.
\<close>

theorem crowdLoop_empty_mode_selected:
  assumes "crowdLoop seq k depth E (bahnFactor, busFactor, radFactor, autoFactor)
             bahnPeds busPeds radPeds autoPeds [] i0 = Inr (startPositions, i)"
    and "x = fst (random_random seq i)"
    and "(x < bahnFactor \<and> bahnPeds = [])
       \<or> (\<not> x < bahnFactor \<and> x < bahnFactor + busFactor \<and> busPeds = [])
       \<or> (\<not> x < bahnFactor \<and> \<not> x < bahnFactor + busFactor
            \<and> x < bahnFactor + busFactor + radFactor \<and> radPeds = [])
       \<or> (\<not> x < bahnFactor \<and> \<not> x < bahnFactor + busFactor
            \<and> \<not> x < bahnFactor + busFactor + radFactor \<and> autoPeds = [])"
  shows "placePedestrian seq depth E (bahnFactor, busFactor, radFactor, autoFactor)
             bahnPeds busPeds radPeds autoPeds startPositions i = Inl ValueError
      \<and> crowdLoop seq (k + Suc n) depth E (bahnFactor, busFactor, radFactor, autoFactor)
             bahnPeds busPeds radPeds autoPeds [] i0 = Inl ValueError"
proof -
  from assms(2,3) have step: "placePedestrian seq depth E (bahnFactor, busFactor, radFactor, autoFactor)
             bahnPeds busPeds radPeds autoPeds startPositions i = Inl ValueError"
    by (auto simp: placePedestrian_def startNear_empty split: prod.splits)
  have "crowdLoop seq (k + Suc n) depth E (bahnFactor, busFactor, radFactor, autoFactor)
             bahnPeds busPeds radPeds autoPeds [] i0
      = crowdLoop seq (Suc n) depth E (bahnFactor, busFactor, radFactor, autoFactor)
             bahnPeds busPeds radPeds autoPeds startPositions i"
    by (simp only: crowdLoop_add assms(1)) simp
  with step show ?thesis by simp
qed

text \<open>With no gateway at all the weights are (0, 0, 0, 1) and the car list is selected.\<close>

theorem crowdLoop_empty_mode_selected_witness:
  "crowdLoop (draws_of []) (Suc 0) (Suc (Suc 0)) rshape_engine (factoring [] [] [] []) [] [] [] [] [] 0
     = Inl ValueError"
  using crowdLoop_empty_mode_selected
    [of "draws_of []" 0 "Suc (Suc 0)" rshape_engine 0 0 0 1 "[]" "[]" "[]" "[]" 0 "[]" 0 0 0]
  by (simp add: factoring_cases random_random_def draws_of_simps)

lemma startNear_length:
  "startNear seq depth E peds startPositions i = Inr (startPositions', j) \<Longrightarrow>
   length startPositions' = Suc (length startPositions)"
  by (auto simp: startNear_def split: sum.splits)

lemma placePedestrian_length:
  "placePedestrian seq depth E factors bahnPeds busPeds radPeds autoPeds startPositions i
     = Inr (startPositions', j) \<Longrightarrow>
   length startPositions' = Suc (length startPositions)"
  by (auto simp: placePedestrian_def split: prod.splits if_splits dest: startNear_length)

text \<open>When the crowd loop returns, it has added one start point for each pedestrian.\<close>

lemma crowdLoop_length:
  "crowdLoop seq peds depth E factors bahnPeds busPeds radPeds autoPeds startPositions i
     = Inr (startPositions', j) \<Longrightarrow>
   length startPositions' = length startPositions + peds"
proof (induction peds arbitrary: startPositions i)
  case 0
  then show ?case by simp
next
  case (Suc peds)
  from Suc.prems obtain sp1 i1 where
    step: "placePedestrian seq depth E factors bahnPeds busPeds radPeds autoPeds startPositions i
           = Inr (sp1, i1)"
    and rest: "crowdLoop seq peds depth E factors bahnPeds busPeds radPeds autoPeds sp1 i1
           = Inr (startPositions', j)"
    by (auto split: sum.splits)
  from Suc.IH [OF rest] placePedestrian_length [OF step] show ?case by simp
qed

text \<open>
  C1 fails on the code. One rail gateway at (10, 10), two pedestrians. The first start
  point is (10, 10). The candidate for the second is (645/64, 645/64), closer than 0.3
  to the first: \<open>randomPoint\<close> calls itself, drops the point the call returns, and
  returns the candidate after the loop.
\<close>

theorem crowdLoop_start_points_too_close:
  "crowdLoop
     (draws_of [0, 0, 4503599627370496, 4503599627370496,
                0, 0, 4573968371548160, 4573968371548160, 0, 0])
     (Suc (Suc 0)) (Suc (Suc depth)) rshape_engine (factoring [Point 10 10] [] [] [])
     [Point 10 10] [] [] [] [] 0
    = Inr ([(10, 10), (645 / 64, 645 / 64)], 10)
   \<and> distance (10, 10) (645 / 64, 645 / 64) < 0.3"
proof -
  have "distance (10, 10) (645 / 64, 645 / 64) < 0.3"
    using distance_less_iff [of "0.3" "(10, 10)" "(645 / 64, 645 / 64)"]
    by (simp add: power2_eq_square)
  moreover have "crowdLoop
     (draws_of [0, 0, 4503599627370496, 4503599627370496,
                0, 0, 4573968371548160, 4573968371548160, 0, 0])
     (Suc (Suc 0)) (Suc (Suc depth)) rshape_engine (factoring [Point 10 10] [] [] [])
     [Point 10 10] [] [] [] [] 0
    = Inr ([(10, 10), (645 / 64, 645 / 64)], 10)"
    by (simp add: factoring_cases placePedestrian_def startNear_def random_random_def
      random_uniform_def random_randint_def getitem_def draws_of_simps randomPoint_loop_Cons
      rshape_engine_def Point_def power2_eq_square del: randomPoint_loop.simps(2))
  ultimately show ?thesis by simp
qed


section \<open>Properties of the mission table\<close>

lemma random_randint_index:
  assumes "0 < n"
  shows "random_randint seq 0 (int n - 1) i = Inr (int (seq i mod n), Suc i)"
proof -
  have "nat (int n - 1 - 0 + 1) = n" by simp
  with assms show ?thesis by (simp add: random_randint_def)
qed

lemma getitem_index: "k < length xs \<Longrightarrow> getitem xs (int k) = Inr (xs ! k)"
  by (simp add: getitem_def)

lemma pickStart_nonempty:
  "startPositions \<noteq> [] \<Longrightarrow>
   pickStart seq wkt startPositions i
     = Inr (wkt (startPositions ! (seq i mod length startPositions)), Suc i)"
  by (simp add: pickStart_def random_randint_index getitem_index)

lemma missionRows_target:
  "missionRows seq wkt str (Some (tx, ty)) startPositions vals i
     = Inr (map (\<lambda>val. (wkt val, ''FollowWayPointsMentalModel'',
                         ''[ POINT ('' @ str tx @ '' '' @ str ty @ '') ]'')) vals, i)"
  by (induction vals) (simp_all add: generatedMission_def)

lemma missionRows_random:
  "startPositions \<noteq> [] \<Longrightarrow>
   missionRows seq wkt str None startPositions vals (i + 4 * n)
     = Inr (map (\<lambda>(k, val). (wkt val, ''FollowWayPointsMentalModel'',
                  ''['' @ wkt (startPositions ! (seq (i + 4 * k) mod length startPositions))
                   @ '', '' @ wkt (startPositions ! (seq (i + 4 * k + 1) mod length startPositions))
                   @ '', '' @ wkt (startPositions ! (seq (i + 4 * k + 2) mod length startPositions))
                   @ '', '' @ wkt (startPositions ! (seq (i + 4 * k + 3) mod length startPositions))
                   @ '']''))
              (List.enumerate n vals), i + 4 * (n + length vals))"
proof (induction vals arbitrary: n)
  case Nil
  then show ?case by simp
next
  case (Cons val rest)
  have idx: "Suc (Suc (Suc (Suc (i + 4 * n)))) = i + 4 * Suc n" by simp
  from Cons.prems have "generatedMission seq wkt str None startPositions (i + 4 * n)
     = Inr (''['' @ wkt (startPositions ! (seq (i + 4 * n) mod length startPositions))
                   @ '', '' @ wkt (startPositions ! (seq (i + 4 * n + 1) mod length startPositions))
                   @ '', '' @ wkt (startPositions ! (seq (i + 4 * n + 2) mod length startPositions))
                   @ '', '' @ wkt (startPositions ! (seq (i + 4 * n + 3) mod length startPositions))
                   @ '']'', i + 4 * Suc n)"
    by (simp add: generatedMission_def pickStart_nonempty numeral_3_eq_3 numeral_2_eq_2)
  with Cons.IH [OF Cons.prems, of "Suc n"] show ?case
    by simp
qed


lemma map_snd_zip_upt: "map snd (zip [0..<length xs] xs) = xs"
  by (simp add: map_snd_zip)

lemma defineStartVariables_pedMission:
  assumes "defineStartVariables seq depth E wkt str buildings bahnStations busStations radStations
             parkStations bbox_minx bbox_miny bbox_maxx bbox_maxy peds target i = Inr (out, j)"
  shows "\<exists>i1. missionRows seq wkt str target (map snd (pedestrians out)) (map snd (pedestrians out)) i1
            = Inr (tl (pedMission out), j)
          \<and> pedMission out = (''startWKT'', ''mentalModel'', ''wktWayPoints'') # tl (pedMission out)"
  using assms
  by (auto simp: defineStartVariables_def Let_def map_snd_zip_upt split: sum.splits prod.splits)

text \<open>
  C7. With a target, every row of the mission table has the one target coordinate as its
  waypoint text, for every list of start points, and so has every row after the header
  of the table that \<open>defineStartVariables\<close> writes. Without a target, and with at
  least one start point, the waypoint text of the \<open>k\<close>-th row lists four start points,
  each taken from the full list at an index drawn by its own \<^verbatim>\<open>randint\<close> call (raw
  draws \<open>i + 4k\<close> to \<open>i + 4k + 3\<close>), so repetitions and the row's own start point
  can occur.
\<close>

theorem missionRows_waypoints:
  "missionRows seq wkt str (Some (tx, ty)) startPositions vals i
     = Inr (map (\<lambda>val. (wkt val, ''FollowWayPointsMentalModel'',
                         ''[ POINT ('' @ str tx @ '' '' @ str ty @ '') ]'')) vals, i)
   \<and> (\<forall>out j.
        defineStartVariables seq depth E wkt str buildings bahnStations busStations radStations
          parkStations bbox_minx bbox_miny bbox_maxx bbox_maxy peds (Some (tx, ty)) i = Inr (out, j)
        \<longrightarrow> pedMission out = (''startWKT'', ''mentalModel'', ''wktWayPoints'')
              # map (\<lambda>val. (wkt val, ''FollowWayPointsMentalModel'',
                         ''[ POINT ('' @ str tx @ '' '' @ str ty @ '') ]''))
                  (map snd (pedestrians out)))
   \<and> (startPositions \<noteq> [] \<longrightarrow>
        missionRows seq wkt str None startPositions vals i
          = Inr (map (\<lambda>(k, val). (wkt val, ''FollowWayPointsMentalModel'',
                  ''['' @ wkt (startPositions ! (seq (i + 4 * k) mod length startPositions))
                   @ '', '' @ wkt (startPositions ! (seq (i + 4 * k + 1) mod length startPositions))
                   @ '', '' @ wkt (startPositions ! (seq (i + 4 * k + 2) mod length startPositions))
                   @ '', '' @ wkt (startPositions ! (seq (i + 4 * k + 3) mod length startPositions))
                   @ '']''))
              (List.enumerate 0 vals), i + 4 * length vals))"
proof -
  have fixed: "\<And>vs k. missionRows seq wkt str (Some (tx, ty)) vs vs k
     = Inr (map (\<lambda>val. (wkt val, ''FollowWayPointsMentalModel'',
                         ''[ POINT ('' @ str tx @ '' '' @ str ty @ '') ]'')) vs, k)"
    by (rule missionRows_target)
  have "pedMission out = (''startWKT'', ''mentalModel'', ''wktWayPoints'')
              # map (\<lambda>val. (wkt val, ''FollowWayPointsMentalModel'',
                         ''[ POINT ('' @ str tx @ '' '' @ str ty @ '') ]''))
                  (map snd (pedestrians out))"
    if "defineStartVariables seq depth E wkt str buildings bahnStations busStations radStations
          parkStations bbox_minx bbox_miny bbox_maxx bbox_maxy peds (Some (tx, ty)) i = Inr (out, j)"
    for out j
    using defineStartVariables_pedMission [OF that] by (auto simp: fixed)
  then show ?thesis
    using missionRows_target [of seq wkt str tx ty startPositions vals i]
      missionRows_random [of startPositions seq wkt str vals i 0]
    by simp
qed

theorem missionRows_waypoints_witness:
  "missionRows (draws_of [1, 0, 1, 1, 0, 2, 3, 4]) (\<lambda>p. if p = (1, 2) then ''A'' else ''B'') (\<lambda>x. ''.'')
      None [(1, 2), (3, 4)] [(1, 2), (3, 4)] 0
     = Inr ([(''A'', ''FollowWayPointsMentalModel'', ''[B, A, B, B]''),
             (''B'', ''FollowWayPointsMentalModel'', ''[A, A, B, A]'')], 8)
   \<and> missionRows (draws_of [1, 0, 1, 1, 0, 2, 3, 4]) (\<lambda>p. if p = (1, 2) then ''A'' else ''B'') (\<lambda>x. ''.'')
      (Some (500, 500)) [(1, 2), (3, 4)] [(1, 2), (3, 4)] 0
     = Inr ([(''A'', ''FollowWayPointsMentalModel'', ''[ POINT (. .) ]''),
             (''B'', ''FollowWayPointsMentalModel'', ''[ POINT (. .) ]'')], 0)"
proof -
  let ?seq = "draws_of [1, 0, 1, 1, 0, 2, 3, 4]"
  let ?wkt = "\<lambda>p::point. if p = (1, 2) then ''A'' else ''B''"
  let ?sp = "[(1, 2), (3, 4)] :: point list"
  have len: "length ?sp = 2" by simp
  have nonempty: "?sp \<noteq> []" by simp
  note inst = missionRows_waypoints [of ?seq ?wkt "\<lambda>x. ''.''" 500 500 ?sp ?sp 0]
  from inst have target: "missionRows ?seq ?wkt (\<lambda>x. ''.'') (Some (500, 500)) ?sp ?sp 0
      = Inr (map (\<lambda>val. (?wkt val, ''FollowWayPointsMentalModel'',
                         ''[ POINT ('' @ ''.'' @ '' '' @ ''.'' @ '') ]'')) ?sp, 0)"
    by (rule conjunct1)
  from inst nonempty have random: "missionRows ?seq ?wkt (\<lambda>x. ''.'') None ?sp ?sp 0
      = Inr (map (\<lambda>(k, val). (?wkt val, ''FollowWayPointsMentalModel'',
                  ''['' @ ?wkt (?sp ! (?seq (0 + 4 * k) mod length ?sp))
                   @ '', '' @ ?wkt (?sp ! (?seq (0 + 4 * k + 1) mod length ?sp))
                   @ '', '' @ ?wkt (?sp ! (?seq (0 + 4 * k + 2) mod length ?sp))
                   @ '', '' @ ?wkt (?sp ! (?seq (0 + 4 * k + 3) mod length ?sp))
                   @ '']''))
              (List.enumerate 0 ?sp), 0 + 4 * length ?sp)"
    by blast
  have rows: "map (\<lambda>(k, val). (?wkt val, ''FollowWayPointsMentalModel'',
                  ''['' @ ?wkt (?sp ! (?seq (0 + 4 * k) mod length ?sp))
                   @ '', '' @ ?wkt (?sp ! (?seq (0 + 4 * k + 1) mod length ?sp))
                   @ '', '' @ ?wkt (?sp ! (?seq (0 + 4 * k + 2) mod length ?sp))
                   @ '', '' @ ?wkt (?sp ! (?seq (0 + 4 * k + 3) mod length ?sp))
                   @ '']''))
              (List.enumerate 0 ?sp)
     = [(''A'', ''FollowWayPointsMentalModel'', ''[B, A, B, B]''),
        (''B'', ''FollowWayPointsMentalModel'', ''[A, A, B, A]'')]"
    unfolding len by (simp add: draws_of_def)
  have "0 + 4 * length ?sp = 8" by simp
  with random rows target show ?thesis by (simp only: list.map append.simps) simp
qed

section \<open>Determinism of the pipeline\<close>

lemma agree_sub: "agree seq seq' i j \<Longrightarrow> i \<le> i' \<Longrightarrow> j' \<le> j \<Longrightarrow> agree seq seq' i' j'"
  by (simp add: agree_def)

lemma agree_at: "agree seq seq' i j \<Longrightarrow> i \<le> m \<Longrightarrow> m < j \<Longrightarrow> seq' m = seq m"
  by (simp add: agree_def)

lemma random_random_agree:
  "random_random seq i = (u, j) \<Longrightarrow> j = Suc i \<and> (agree seq seq' i j \<longrightarrow> random_random seq' i = (u, j))"
  by (auto simp: random_random_def agree_def)

lemma random_uniform_agree:
  "random_uniform seq a b i = (u, j) \<Longrightarrow> j = Suc i \<and> (agree seq seq' i j \<longrightarrow> random_uniform seq' a b i = (u, j))"
  by (auto simp: random_uniform_def random_random_def agree_def)

lemma random_randint_agree:
  "random_randint seq a b i = Inr (k, j) \<Longrightarrow>
     j = Suc i \<and> (agree seq seq' i j \<longrightarrow> random_randint seq' a b i = Inr (k, j))"
  by (auto simp: random_randint_def agree_def split: if_splits)

lemma randomPoint_loop_agree:
  assumes again: "\<And>i v j. again i = Inr (v, j) \<Longrightarrow> i \<le> j \<and> (agree seq seq' i j \<longrightarrow> again' i = Inr (v, j))"
  shows "randomPoint_loop again p startPositions i = Inr (v, j) \<Longrightarrow>
     i \<le> j \<and> (agree seq seq' i j \<longrightarrow> randomPoint_loop again' p startPositions i = Inr (v, j))"
proof (induction startPositions arbitrary: i)
  case Nil
  then show ?case by simp
next
  case (Cons a rest)
  show ?case
  proof (cases "distance p a < 0.3")
    case False
    with Cons.prems show ?thesis by simp
  next
    case True
    with Cons.prems obtain q i' where a: "again i = Inr (q, i')"
      and r: "randomPoint_loop again p rest i' = Inr (v, j)"
      by (auto split: sum.splits)
    from again [OF a] have 1: "i \<le> i'" and 2: "agree seq seq' i i' \<longrightarrow> again' i = Inr (q, i')"
      by simp_all
    from Cons.IH [OF r] have 3: "i' \<le> j"
      and 4: "agree seq seq' i' j \<longrightarrow> randomPoint_loop again' p rest i' = Inr (v, j)"
      by simp_all
    have "randomPoint_loop again' p (a # rest) i = Inr (v, j)" if ag: "agree seq seq' i j"
    proof -
      from ag 1 3 have "agree seq seq' i i'" "agree seq seq' i' j"
        by (auto intro: agree_sub)
      with 2 4 True show ?thesis by simp
    qed
    with 1 3 show ?thesis by simp
  qed
qed

lemma randomPoint_agree:
  "randomPoint seq depth point startPositions i = Inr (v, j) \<Longrightarrow>
     i \<le> j \<and> (agree seq seq' i j \<longrightarrow> randomPoint seq' depth point startPositions i = Inr (v, j))"
proof (induction depth arbitrary: i v j)
  case 0
  then show ?case by simp
next
  case (Suc depth)
  obtain x where x: "random_uniform seq (fst point - 5) (fst point + 5) i = (x, Suc i)"
    by (simp add: random_uniform_def random_random_def)
  obtain y where y: "random_uniform seq (snd point - 5) (snd point + 5) (Suc i) = (y, Suc (Suc i))"
    by (simp add: random_uniform_def random_random_def)
  from Suc.prems x y have loop:
    "randomPoint_loop (randomPoint seq depth point startPositions) (x, y) startPositions (Suc (Suc i))
       = Inr (v, j)"
    by simp
  from randomPoint_loop_agree [of "randomPoint seq depth point startPositions" seq seq'
      "randomPoint seq' depth point startPositions", OF Suc.IH loop]
  have le: "Suc (Suc i) \<le> j"
    and rest: "agree seq seq' (Suc (Suc i)) j \<longrightarrow>
      randomPoint_loop (randomPoint seq' depth point startPositions) (x, y) startPositions (Suc (Suc i))
       = Inr (v, j)"
    by simp_all
  have "randomPoint seq' (Suc depth) point startPositions i = Inr (v, j)" if ag: "agree seq seq' i j"
  proof -
    from ag le have a1: "agree seq seq' i (Suc i)" and a2: "agree seq seq' (Suc i) (Suc (Suc i))"
      and a3: "agree seq seq' (Suc (Suc i)) j"
      by (auto intro: agree_sub)
    from random_uniform_agree [OF x] a1
    have x': "random_uniform seq' (fst point - 5) (fst point + 5) i = (x, Suc i)" by simp
    from random_uniform_agree [OF y] a2
    have y': "random_uniform seq' (snd point - 5) (snd point + 5) (Suc i) = (y, Suc (Suc i))" by simp
    from x' y' rest a3 show ?thesis by simp
  qed
  with le show ?case by simp
qed


lemma startNear_agree:
  assumes "startNear seq depth E peds startPositions i = Inr (v, j)"
  shows "i \<le> j \<and> (agree seq seq' i j \<longrightarrow> startNear seq' depth E peds startPositions i = Inr (v, j))"
proof -
  from assms obtain pPos i1 gateway p where
    r: "random_randint seq 0 (int (length peds) - 1) i = Inr (pPos, i1)"
    and g: "getitem peds pPos = Inr gateway"
    and rp: "randomPoint seq depth (point_xy E gateway) startPositions i1 = Inr (p, j)"
    and v: "v = startPositions @ [p]"
    by (auto simp: startNear_def split: sum.splits)
  from random_randint_agree [OF r] have i1: "i1 = Suc i"
    and r': "agree seq seq' i i1 \<longrightarrow> random_randint seq' 0 (int (length peds) - 1) i = Inr (pPos, i1)"
    by simp_all
  from randomPoint_agree [OF rp] have le: "i1 \<le> j"
    and rp': "agree seq seq' i1 j \<longrightarrow>
       randomPoint seq' depth (point_xy E gateway) startPositions i1 = Inr (p, j)"
    by simp_all
  have "startNear seq' depth E peds startPositions i = Inr (v, j)" if ag: "agree seq seq' i j"
  proof -
    from ag i1 le have "agree seq seq' i i1" "agree seq seq' i1 j"
      by (auto intro: agree_sub)
    with r' rp' g v show ?thesis by (simp add: startNear_def)
  qed
  with i1 le show ?thesis by simp
qed

lemma placePedestrian_startNear:
  "placePedestrian seq depth E (bahnFactor, busFactor, radFactor, autoFactor)
       bahnPeds busPeds radPeds autoPeds startPositions i
     = startNear seq depth E
         (if fst (random_random seq i) < bahnFactor then bahnPeds
          else if fst (random_random seq i) < bahnFactor + busFactor then busPeds
          else if fst (random_random seq i) < bahnFactor + busFactor + radFactor then radPeds
          else autoPeds)
         startPositions (Suc i)"
  by (simp add: placePedestrian_def random_random_def)

lemma placePedestrian_agree:
  assumes "placePedestrian seq depth E factors bahnPeds busPeds radPeds autoPeds startPositions i
             = Inr (v, j)"
  shows "i \<le> j \<and> (agree seq seq' i j \<longrightarrow>
           placePedestrian seq' depth E factors bahnPeds busPeds radPeds autoPeds startPositions i
             = Inr (v, j))"
proof -
  obtain bahnFactor busFactor radFactor autoFactor
    where f: "factors = (bahnFactor, busFactor, radFactor, autoFactor)"
    by (cases factors) auto
  define peds where "peds = (\<lambda>s::draws.
     if fst (random_random s i) < bahnFactor then bahnPeds
     else if fst (random_random s i) < bahnFactor + busFactor then busPeds
     else if fst (random_random s i) < bahnFactor + busFactor + radFactor then radPeds
     else autoPeds)"
  have unfold: "placePedestrian s depth E factors bahnPeds busPeds radPeds autoPeds startPositions i
      = startNear s depth E (peds s) startPositions (Suc i)" for s
    unfolding f peds_def by (rule placePedestrian_startNear)
  from assms have sn: "startNear seq depth E (peds seq) startPositions (Suc i) = Inr (v, j)"
    by (simp only: unfold)
  from startNear_agree [OF sn] have le: "Suc i \<le> j"
    and sn': "agree seq seq' (Suc i) j \<longrightarrow>
        startNear seq' depth E (peds seq) startPositions (Suc i) = Inr (v, j)"
    by simp_all
  have "placePedestrian seq' depth E factors bahnPeds busPeds radPeds autoPeds startPositions i
             = Inr (v, j)" if ag: "agree seq seq' i j"
  proof -
    from ag le have "seq' i = seq i" by (auto intro: agree_at)
    then have "peds seq' = peds seq" by (simp add: peds_def random_random_def)
    moreover from ag le have "agree seq seq' (Suc i) j" by (auto intro: agree_sub)
    ultimately show ?thesis using sn' by (simp only: unfold)
  qed
  with le show ?thesis by simp
qed

lemma crowdLoop_agree:
  "crowdLoop seq peds depth E factors bahnPeds busPeds radPeds autoPeds startPositions i = Inr (v, j) \<Longrightarrow>
   i \<le> j \<and> (agree seq seq' i j \<longrightarrow>
     crowdLoop seq' peds depth E factors bahnPeds busPeds radPeds autoPeds startPositions i = Inr (v, j))"
proof (induction peds arbitrary: startPositions i)
  case 0
  then show ?case by simp
next
  case (Suc peds)
  from Suc.prems obtain sp1 i1 where
    pp: "placePedestrian seq depth E factors bahnPeds busPeds radPeds autoPeds startPositions i
           = Inr (sp1, i1)"
    and cl: "crowdLoop seq peds depth E factors bahnPeds busPeds radPeds autoPeds sp1 i1 = Inr (v, j)"
    by (auto split: sum.splits)
  from placePedestrian_agree [OF pp] have 1: "i \<le> i1"
    and 2: "agree seq seq' i i1 \<longrightarrow>
       placePedestrian seq' depth E factors bahnPeds busPeds radPeds autoPeds startPositions i
           = Inr (sp1, i1)"
    by simp_all
  from Suc.IH [OF cl] have 3: "i1 \<le> j"
    and 4: "agree seq seq' i1 j \<longrightarrow>
       crowdLoop seq' peds depth E factors bahnPeds busPeds radPeds autoPeds sp1 i1 = Inr (v, j)"
    by simp_all
  have "crowdLoop seq' (Suc peds) depth E factors bahnPeds busPeds radPeds autoPeds startPositions i
          = Inr (v, j)" if ag: "agree seq seq' i j"
  proof -
    from ag 1 3 have "agree seq seq' i i1" "agree seq seq' i1 j"
      by (auto intro: agree_sub)
    with 2 4 show ?thesis by simp
  qed
  with 1 3 show ?case by simp
qed

lemma pickStart_agree:
  assumes "pickStart seq wkt startPositions i = Inr (w, j)"
  shows "j = Suc i \<and> (agree seq seq' i j \<longrightarrow> pickStart seq' wkt startPositions i = Inr (w, j))"
proof -
  from assms obtain k p where
    r: "random_randint seq 0 (int (length startPositions) - 1) i = Inr (k, j)"
    and g: "getitem startPositions k = Inr p" and w: "w = wkt p"
    by (auto simp: pickStart_def split: sum.splits)
  from random_randint_agree [OF r] g w show ?thesis
    by (simp add: pickStart_def)
qed

lemma generatedMission_agree:
  assumes "generatedMission seq wkt str target startPositions i = Inr (m, j)"
  shows "i \<le> j \<and> (agree seq seq' i j \<longrightarrow>
           generatedMission seq' wkt str target startPositions i = Inr (m, j))"
proof (cases target)
  case (Some t)
  with assms show ?thesis by (simp add: generatedMission_def)
next
  case None
  with assms obtain w1 i1 w2 i2 w3 i3 w4 where
    p1: "pickStart seq wkt startPositions i = Inr (w1, i1)"
    and p2: "pickStart seq wkt startPositions i1 = Inr (w2, i2)"
    and p3: "pickStart seq wkt startPositions i2 = Inr (w3, i3)"
    and p4: "pickStart seq wkt startPositions i3 = Inr (w4, j)"
    and m: "m = ''['' @ w1 @ '', '' @ w2 @ '', '' @ w3 @ '', '' @ w4 @ '']''"
    by (auto simp: generatedMission_def split: sum.splits)
  note a1 = pickStart_agree [OF p1, of seq'] and a2 = pickStart_agree [OF p2, of seq']
    and a3 = pickStart_agree [OF p3, of seq'] and a4 = pickStart_agree [OF p4, of seq']
  from a1 a2 a3 a4 have idx: "i1 = Suc i" "i2 = Suc i1" "i3 = Suc i2" "j = Suc i3"
    by simp_all
  have "generatedMission seq' wkt str target startPositions i = Inr (m, j)"
    if ag: "agree seq seq' i j"
  proof -
    from ag idx have "agree seq seq' i i1" "agree seq seq' i1 i2" "agree seq seq' i2 i3"
      "agree seq seq' i3 j"
      by (auto intro: agree_sub)
    with a1 a2 a3 a4 have "pickStart seq' wkt startPositions i = Inr (w1, i1)"
      "pickStart seq' wkt startPositions i1 = Inr (w2, i2)"
      "pickStart seq' wkt startPositions i2 = Inr (w3, i3)"
      "pickStart seq' wkt startPositions i3 = Inr (w4, j)"
      by simp_all
    with None m show ?thesis by (simp add: generatedMission_def)
  qed
  with idx show ?thesis by simp
qed

lemma missionRows_agree:
  "missionRows seq wkt str target startPositions vals i = Inr (rows, j) \<Longrightarrow>
   i \<le> j \<and> (agree seq seq' i j \<longrightarrow>
     missionRows seq' wkt str target startPositions vals i = Inr (rows, j))"
proof (induction vals arbitrary: i rows)
  case Nil
  then show ?case by simp
next
  case (Cons val rest)
  from Cons.prems obtain mission i1 rows1 where
    gm: "generatedMission seq wkt str target startPositions i = Inr (mission, i1)"
    and mr: "missionRows seq wkt str target startPositions rest i1 = Inr (rows1, j)"
    and rows: "rows = (wkt val, ''FollowWayPointsMentalModel'', mission) # rows1"
    by (auto split: sum.splits)
  from generatedMission_agree [OF gm] have 1: "i \<le> i1"
    and 2: "agree seq seq' i i1 \<longrightarrow>
       generatedMission seq' wkt str target startPositions i = Inr (mission, i1)"
    by simp_all
  from Cons.IH [OF mr] have 3: "i1 \<le> j"
    and 4: "agree seq seq' i1 j \<longrightarrow>
       missionRows seq' wkt str target startPositions rest i1 = Inr (rows1, j)"
    by simp_all
  have "missionRows seq' wkt str target startPositions (val # rest) i = Inr (rows, j)"
    if ag: "agree seq seq' i j"
  proof -
    from ag 1 3 have "agree seq seq' i i1" "agree seq seq' i1 j"
      by (auto intro: agree_sub)
    with 2 4 rows show ?thesis by simp
  qed
  with 1 3 show ?case by simp
qed

text \<open>
  C9. The pipeline is a function of the sequence of raw draws that the seed fixes, the
  index of the next draw, and the inputs; and a run reads only the draws it consumes.
  If a run from draw \<open>i\<close> writes the files \<open>out\<close> and stops at draw \<open>j\<close>, then a run
  with the same inputs on any sequence with the same draws \<open>i\<close> to \<open>j - 1\<close> writes the
  same files, among them the same start points and the same mission table. Two runs
  with the same seed have the same draws throughout.
\<close>

theorem defineStartVariables_deterministic:
  assumes run: "defineStartVariables seq depth E wkt str buildings bahnStations busStations radStations
             parkStations bbox_minx bbox_miny bbox_maxx bbox_maxy peds target i = Inr (out, j)"
    and same: "\<forall>m. i \<le> m \<and> m < j \<longrightarrow> seq' m = seq m"
  shows "defineStartVariables seq' depth E wkt str buildings bahnStations busStations radStations
             parkStations bbox_minx bbox_miny bbox_maxx bbox_maxy peds target i = Inr (out, j)"
proof -
  define bbox where "bbox = mk_box E bbox_minx bbox_miny bbox_maxx bbox_maxy"
  define boundariesInBBox where "boundariesInBBox = defineBorders E buildings bbox"
  from run obtain stationsInBBox where
    fs: "findStations depth E bahnStations busStations radStations parkStations bbox boundariesInBBox
           = Inr stationsInBBox"
    by (auto simp: defineStartVariables_def Let_def bbox_def boundariesInBBox_def split: sum.splits)
  define gatewaysList where
    "gatewaysList = map (\<lambda>station. (geometry (fst station), snd station)) stationsInBBox"
  obtain bahnPeds busPeds radPeds autoPeds where
    sg: "sortGateways gatewaysList [] [] [] [] = (bahnPeds, busPeds, radPeds, autoPeds)"
    by (cases "sortGateways gatewaysList [] [] [] []") auto
  from run fs sg obtain startPositions i1 rows where
    cl: "crowdLoop seq peds depth E (factoring bahnPeds busPeds radPeds autoPeds)
           bahnPeds busPeds radPeds autoPeds [] i = Inr (startPositions, i1)"
    and mr: "missionRows seq wkt str target startPositions startPositions i1 = Inr (rows, j)"
    and out: "out = \<lparr>boundaries_cut = zip [0..<length boundariesInBBox] (map geometry boundariesInBBox),
                     gateways = zip [0..<length gatewaysList] gatewaysList,
                     pedestrians = zip [0..<length startPositions] startPositions,
                     pedMission = (''startWKT'', ''mentalModel'', ''wktWayPoints'') # rows\<rparr>"
    by (auto simp: defineStartVariables_def Let_def bbox_def boundariesInBBox_def gatewaysList_def
        split: sum.splits)
  from same have ag: "agree seq seq' i j" by (simp add: agree_def)
  from crowdLoop_agree [OF cl] have 1: "i \<le> i1"
    and 2: "agree seq seq' i i1 \<longrightarrow>
       crowdLoop seq' peds depth E (factoring bahnPeds busPeds radPeds autoPeds)
           bahnPeds busPeds radPeds autoPeds [] i = Inr (startPositions, i1)"
    by simp_all
  from missionRows_agree [OF mr] have 3: "i1 \<le> j"
    and 4: "agree seq seq' i1 j \<longrightarrow>
       missionRows seq' wkt str target startPositions startPositions i1 = Inr (rows, j)"
    by simp_all
  from ag 1 3 have "agree seq seq' i i1" "agree seq seq' i1 j"
    by (auto intro: agree_sub)
  with 2 4 have "crowdLoop seq' peds depth E (factoring bahnPeds busPeds radPeds autoPeds)
           bahnPeds busPeds radPeds autoPeds [] i = Inr (startPositions, i1)"
    and "missionRows seq' wkt str target startPositions startPositions i1 = Inr (rows, j)"
    by simp_all
  with fs sg out show ?thesis
    by (simp add: defineStartVariables_def Let_def bbox_def boundariesInBBox_def gatewaysList_def)
qed

text \<open>
  A run with two pedestrians and no target consumes 16 draws; the second sequence has the
  same first 16 draws and differs afterwards.
\<close>

theorem defineStartVariables_deterministic_witness:
  "defineStartVariables
     (draws_of [0, 1, 4503599627370496, 4503599627370496,
                8444249301319680, 0, 4503599627370496, 4503599627370496,
                0, 1, 1, 0, 1, 1, 0, 0])
     (Suc (Suc 0)) rshape_engine (\<lambda>p. if fst p < 50 then ''W'' else ''E'') (\<lambda>x. ''.'')
     [\<lparr>fid = 0, geometry = box 40 40 60 60\<rparr>, \<lparr>fid = 1, geometry = box 400 400 600 600\<rparr>]
     [\<lparr>fid = 0, geometry = Point 10 10\<rparr>, \<lparr>fid = 1, geometry = Point 20 20\<rparr>]
     [\<lparr>fid = 0, geometry = Point 30 30\<rparr>, \<lparr>fid = 1, geometry = Point 50 50\<rparr>]
     [\<lparr>fid = 0, geometry = Point 70 70\<rparr>]
     [\<lparr>fid = 0, geometry = Point 80 80\<rparr>, \<lparr>fid = 1, geometry = Point 90 90\<rparr>]
     0 0 100 100 (Suc (Suc 0)) None 0
    = Inr (\<lparr>boundaries_cut = [(0, box 40 40 60 60)],
            gateways = [(0, Point 10 10, ''Bahn''), (1, Point 20 20, ''Bahn''), (2, Point 30 30, ''Bus''),
                        (3, Point 70 70, ''Rad''), (4, Point 80 80, ''Auto''), (5, Point 90 90, ''Auto'')],
            pedestrians = [(0, (20, 20)), (1, (80, 80))],
            pedMission = [(''startWKT'', ''mentalModel'', ''wktWayPoints''),
                          (''W'', ''FollowWayPointsMentalModel'', ''[W, E, E, W]''),
                          (''E'', ''FollowWayPointsMentalModel'', ''[E, E, W, W]'')]\<rparr>, 16)
   \<and> defineStartVariables
     (\<lambda>m. if m < 16
       then draws_of [0, 1, 4503599627370496, 4503599627370496,
                8444249301319680, 0, 4503599627370496, 4503599627370496,
                0, 1, 1, 0, 1, 1, 0, 0] m
       else 7)
     (Suc (Suc 0)) rshape_engine (\<lambda>p. if fst p < 50 then ''W'' else ''E'') (\<lambda>x. ''.'')
     [\<lparr>fid = 0, geometry = box 40 40 60 60\<rparr>, \<lparr>fid = 1, geometry = box 400 400 600 600\<rparr>]
     [\<lparr>fid = 0, geometry = Point 10 10\<rparr>, \<lparr>fid = 1, geometry = Point 20 20\<rparr>]
     [\<lparr>fid = 0, geometry = Point 30 30\<rparr>, \<lparr>fid = 1, geometry = Point 50 50\<rparr>]
     [\<lparr>fid = 0, geometry = Point 70 70\<rparr>]
     [\<lparr>fid = 0, geometry = Point 80 80\<rparr>, \<lparr>fid = 1, geometry = Point 90 90\<rparr>]
     0 0 100 100 (Suc (Suc 0)) None 0
    = Inr (\<lparr>boundaries_cut = [(0, box 40 40 60 60)],
            gateways = [(0, Point 10 10, ''Bahn''), (1, Point 20 20, ''Bahn''), (2, Point 30 30, ''Bus''),
                        (3, Point 70 70, ''Rad''), (4, Point 80 80, ''Auto''), (5, Point 90 90, ''Auto'')],
            pedestrians = [(0, (20, 20)), (1, (80, 80))],
            pedMission = [(''startWKT'', ''mentalModel'', ''wktWayPoints''),
                          (''W'', ''FollowWayPointsMentalModel'', ''[W, E, E, W]''),
                          (''E'', ''FollowWayPointsMentalModel'', ''[E, E, W, W]'')]\<rparr>, 16)"
proof -
  let ?seq = "draws_of [0, 1, 4503599627370496, 4503599627370496,
                8444249301319680, 0, 4503599627370496, 4503599627370496,
                0, 1, 1, 0, 1, 1, 0, 0]"
  let ?seq' = "\<lambda>m. if m < 16 then ?seq m else 7"
  let ?out = "\<lparr>boundaries_cut = [(0, box 40 40 60 60)],
            gateways = [(0, Point 10 10, ''Bahn''), (1, Point 20 20, ''Bahn''), (2, Point 30 30, ''Bus''),
                        (3, Point 70 70, ''Rad''), (4, Point 80 80, ''Auto''), (5, Point 90 90, ''Auto'')],
            pedestrians = [(0, (20, 20)), (1, (80, 80))],
            pedMission = [(''startWKT'', ''mentalModel'', ''wktWayPoints''),
                          (''W'', ''FollowWayPointsMentalModel'', ''[W, E, E, W]''),
                          (''E'', ''FollowWayPointsMentalModel'', ''[E, E, W, W]'')]\<rparr>"
  have run: "defineStartVariables ?seq
     (Suc (Suc 0)) rshape_engine (\<lambda>p. if fst p < 50 then ''W'' else ''E'') (\<lambda>x. ''.'')
     [\<lparr>fid = 0, geometry = box 40 40 60 60\<rparr>, \<lparr>fid = 1, geometry = box 400 400 600 600\<rparr>]
     [\<lparr>fid = 0, geometry = Point 10 10\<rparr>, \<lparr>fid = 1, geometry = Point 20 20\<rparr>]
     [\<lparr>fid = 0, geometry = Point 30 30\<rparr>, \<lparr>fid = 1, geometry = Point 50 50\<rparr>]
     [\<lparr>fid = 0, geometry = Point 70 70\<rparr>]
     [\<lparr>fid = 0, geometry = Point 80 80\<rparr>, \<lparr>fid = 1, geometry = Point 90 90\<rparr>]
     0 0 100 100 (Suc (Suc 0)) None 0 = Inr (?out, 16)"
    by (simp add: defineStartVariables_def defineBorders_def stationsFound_def removeStations.simps
      rshape_engine_def rshape_intersects_def rshape_buffer_def Point_def box_def gap_def
      factoring_cases placePedestrian_def startNear_def random_random_def
      random_uniform_def random_randint_def getitem_def draws_of_simps randomPoint_loop_Cons
      generatedMission_def pickStart_def power2_eq_square del: randomPoint_loop.simps(2))
  have same: "\<forall>m. 0 \<le> m \<and> m < 16 \<longrightarrow> ?seq' m = ?seq m"
    by simp
  from defineStartVariables_deterministic [OF run same] run show ?thesis
    by blast
qed


end
